theory Spec2Isabelle
  imports Main "HOL-Library.Sublist"
begin

section \<open>Work packages and the team's state\<close>

text \<open>
  A work package is the dictionary the planner produces. The scheduler reads four of its
  keys. \<open>package_id\<close> is read with \<open>package["package_id"]\<close>; the other three are
  read with \<open>package.get(key, default)\<close>, so an absent key is \<open>None\<close> here and the
  accessors below supply the default of the source. Every package has the key
  \<open>package_id\<close>, and the values have the types of the planner's prompt: strings, a
  list of strings, a list of dictionaries.
\<close>

record file_spec =
  file_path :: "string option"

record work_package =
  package_id :: string
  agent :: "string option"
  dependencies :: "string list option"
  files_to_create :: "file_spec list option"

definition get_agent :: "work_package \<Rightarrow> string" where
  "get_agent p = (case agent p of None \<Rightarrow> [] | Some a \<Rightarrow> a)"

definition get_dependencies :: "work_package \<Rightarrow> string list" where
  "get_dependencies p = (case dependencies p of None \<Rightarrow> [] | Some ds \<Rightarrow> ds)"

definition get_files_to_create :: "work_package \<Rightarrow> file_spec list" where
  "get_files_to_create p = (case files_to_create p of None \<Rightarrow> [] | Some fs \<Rightarrow> fs)"

definition get_file_path :: "file_spec \<Rightarrow> string" where
  "get_file_path f = (case file_path f of None \<Rightarrow> [] | Some s \<Rightarrow> s)"

text \<open>
  The workers. \<open>initialize_team\<close> registers six \<open>SmartCodingAgent\<close>s and the
  \<open>RequirementsAnalyst\<close> under fixed keys.
\<close>

datatype worker_agent =
  SmartCodingAgent string string
  | RequirementsAnalyst

definition initialize_team_agents :: "string \<rightharpoonup> worker_agent" where
  "initialize_team_agents = map_of
     [(''backend_specialist'', SmartCodingAgent ''backend_specialist'' ''Backend Specialist''),
      (''frontend_specialist'', SmartCodingAgent ''frontend_specialist'' ''Frontend Specialist''),
      (''fullstack_specialist'', SmartCodingAgent ''fullstack_specialist'' ''Fullstack Specialist''),
      (''ml_specialist'', SmartCodingAgent ''ml_specialist'' ''ML Specialist''),
      (''devops_specialist'', SmartCodingAgent ''devops_specialist'' ''DevOps Specialist''),
      (''qa_specialist'', SmartCodingAgent ''qa_specialist'' ''QA Specialist''),
      (''requirements_analyst'', RequirementsAnalyst)]"

section \<open>Routing: \<open>_get_file_type\<close> and \<open>_find_agent_for_package\<close>\<close>

text \<open>
  \<open>str.lower()\<close> on the ASCII range: the letters \<open>A\<close> to \<open>Z\<close> move to
  \<open>a\<close> to \<open>z\<close>, every other character stays.
\<close>

definition lower_char :: "char \<Rightarrow> char" where
  "lower_char c =
     (case map_of (zip ''ABCDEFGHIJKLMNOPQRSTUVWXYZ'' ''abcdefghijklmnopqrstuvwxyz'') c of
        None \<Rightarrow> c
      | Some l \<Rightarrow> l)"

definition lower :: "string \<Rightarrow> string" where
  "lower s = map lower_char s"

text \<open>\<open>any(x in s for x in xs)\<close> and \<open>s.endswith((x1, ..., xn))\<close>.\<close>

definition any_in :: "string list \<Rightarrow> string \<Rightarrow> bool" where
  "any_in xs s = list_ex (\<lambda>x. sublist x s) xs"

definition endswith :: "string \<Rightarrow> string list \<Rightarrow> bool" where
  "endswith s xs = list_ex (\<lambda>x. suffix x s) xs"

definition get_file_type :: "string \<Rightarrow> string" where
  "get_file_type path =
     (if path = [] then ''unknown''
      else let path_lower = lower path in
        if any_in [''test'', ''spec''] path_lower then ''test''
        else if endswith path_lower [''.py'', ''.pyx''] then ''python''
        else if endswith path_lower [''.js'', ''.ts'', ''.jsx'', ''.tsx''] then ''javascript''
        else if endswith path_lower [''.html'', ''.htm''] then ''html''
        else if endswith path_lower [''.css'', ''.scss'', ''.sass''] then ''css''
        else if endswith path_lower [''.json'', ''.yaml'', ''.yml''] then ''config''
        else if any_in [''docker'', ''deploy'', ''ci'', ''cd''] path_lower then ''deploy''
        else if any_in [''ml'', ''model'', ''train'', ''predict'', ''data''] path_lower then ''ml''
        else if any_in [''api'', ''server'', ''backend''] path_lower then ''api''
        else ''generic'')"

definition agent_mapping :: "(string \<times> string) list" where
  "agent_mapping =
     [(''backend_engineer'', ''backend_specialist''),
      (''frontend_engineer'', ''frontend_specialist''),
      (''fullstack_engineer'', ''fullstack_specialist''),
      (''ml_engineer'', ''ml_specialist''),
      (''devops_engineer'', ''devops_specialist''),
      (''qa_engineer'', ''qa_specialist''),
      (''requirements_analyst'', ''requirements_analyst'')]"

text \<open>\<open>agent_mapping.get(agent_name, agent_name)\<close>\<close>

definition mapped_name :: "string \<Rightarrow> string" where
  "mapped_name agent_name =
     (case map_of agent_mapping agent_name of None \<Rightarrow> agent_name | Some m \<Rightarrow> m)"

definition file_types :: "work_package \<Rightarrow> string list" where
  "file_types p = map (\<lambda>f. get_file_type (get_file_path f)) (get_files_to_create p)"

text \<open>\<open>any(ft in kinds for ft in fts)\<close>\<close>

definition any_type :: "string list \<Rightarrow> string list \<Rightarrow> bool" where
  "any_type kinds fts = list_ex (\<lambda>ft. ft \<in> set kinds) fts"

definition find_agent_for_package ::
  "(string \<rightharpoonup> worker_agent) \<Rightarrow> work_package \<Rightarrow> worker_agent option" where
  "find_agent_for_package ags p =
     (let m = mapped_name (get_agent p) in
      if m \<in> dom ags then ags m
      else let fts = file_types p in
        if any_type [''python'', ''api''] fts then ags ''backend_specialist''
        else if any_type [''html'', ''css'', ''javascript''] fts then ags ''frontend_specialist''
        else if any_type [''ml'', ''data''] fts then ags ''ml_specialist''
        else if any_type [''docker'', ''deploy''] fts then ags ''devops_specialist''
        else if any_type [''test''] fts then ags ''qa_specialist''
        else ags ''fullstack_specialist'')"

section \<open>The scheduling loop: \<open>execute_work_packages\<close>\<close>

datatype TeamState = INITIALIZING | ANALYZING | PLANNING | EXECUTING | COMPLETED | FAILED | BLOCKED

text \<open>
  The fields of \<open>CodingTeam\<close> (and of its configuration) that the scheduler reads or
  writes.
\<close>

record coding_team =
  state :: TeamState
  agents :: "string \<rightharpoonup> worker_agent"
  work_packages :: "work_package list"
  completed_packages :: "string list"
  escalation_count :: nat
  batch_processing_size :: int

definition get_available_packages :: "coding_team \<Rightarrow> work_package list" where
  "get_available_packages t =
     filter (\<lambda>p. package_id p \<notin> set (completed_packages t) \<and>
                 list_all (\<lambda>dep. dep \<in> set (completed_packages t)) (get_dependencies p))
       (work_packages t)"

text \<open>
  The slice \<open>xs[:k]\<close> of Python: the first \<open>k\<close> elements, and for a negative
  \<open>k\<close> all but the last \<open>-k\<close>.
\<close>

definition py_prefix :: "int \<Rightarrow> 'a list \<Rightarrow> 'a list" where
  "py_prefix k xs = (if 0 \<le> k then take (nat k) xs else take (length xs - nat (- k)) xs)"

text \<open>\<open>batch = available_packages[:min(len(available_packages), batch_processing_size)]\<close>\<close>

definition select_batch :: "coding_team \<Rightarrow> work_package list" where
  "select_batch t =
     (let available_packages = get_available_packages t;
          batch_size = min (int (length available_packages)) (batch_processing_size t)
      in py_prefix batch_size available_packages)"

text \<open>
  What \<open>await agent.execute_step(...)\<close> does is outside the scheduler: the call returns,
  raises an exception, or never returns. The workers of a run are an oracle giving the
  outcome of the call made for the package at position \<open>i\<close> of the batch of round \<open>r\<close>.
\<close>

datatype outcome = Returns | Raises | Never_returns

type_synonym workers = "nat \<Rightarrow> nat \<Rightarrow> work_package \<Rightarrow> outcome"

text \<open>
  \<open>_execute_single_package\<close>: the flag says whether the coroutine finishes. A package
  with no agent and a call that raises both leave the team as it was; the source
  only writes a log line.
\<close>

definition execute_single_package ::
  "outcome \<Rightarrow> coding_team \<Rightarrow> work_package \<Rightarrow> bool \<times> coding_team" where
  "execute_single_package oc t p =
     (case find_agent_for_package (agents t) p of
        None \<Rightarrow> (True, t)
      | Some a \<Rightarrow>
          (case oc of
             Returns \<Rightarrow> (True, t\<lparr>completed_packages := completed_packages t @ [package_id p]\<rparr>)
           | Raises \<Rightarrow> (True, t)
           | Never_returns \<Rightarrow> (False, t)))"

text \<open>
  \<open>asyncio.gather(*tasks, return_exceptions=True)\<close>: every task of the batch is run;
  the gather finishes when all of them have. The tasks append to
  \<open>completed_packages\<close> in the order in which they finish; the model appends in batch
  order, which gives the same members and the same length.
\<close>

fun gather :: "(nat \<Rightarrow> work_package \<Rightarrow> outcome) \<Rightarrow> nat \<Rightarrow> coding_team \<Rightarrow> work_package list
    \<Rightarrow> bool \<times> coding_team" where
  "gather w i t [] = (True, t)"
| "gather w i t (p # ps) =
     (case execute_single_package (w i p) t p of
        (fin, t') \<Rightarrow> (case gather w (Suc i) t' ps of (fin', t'') \<Rightarrow> (fin \<and> fin', t'')))"

text \<open>
  How the loop ends: the \<open>while\<close> condition is false, or the \<open>break\<close> is taken with
  the list \<open>blocked_packages\<close> (which the source only logs), or a gather is awaited
  forever. The dispatch log is the list of the batches handed to gather, each with
  \<open>completed_packages\<close> as it was when the batch was selected.
\<close>

datatype loop_exit = All_completed | No_available "work_package list"

datatype run_end = Exited loop_exit coding_team | Awaiting coding_team

type_synonym dispatch_log = "(string list \<times> work_package list) list"

text \<open>
  The \<open>while\<close> loop, for at most \<open>n\<close> executions of its body, from round \<open>r\<close>.
  The second component is \<open>None\<close> when the loop is still running after them.
\<close>

fun execute_loop :: "nat \<Rightarrow> workers \<Rightarrow> nat \<Rightarrow> coding_team \<Rightarrow> dispatch_log \<times> run_end option" where
  "execute_loop 0 w r t =
     (if length (completed_packages t) < length (work_packages t) then ([], None)
      else ([], Some (Exited All_completed t)))"
| "execute_loop (Suc n) w r t =
     (if length (completed_packages t) < length (work_packages t) then
        if get_available_packages t = [] then
          ([], Some (Exited (No_available
             (filter (\<lambda>wp. package_id wp \<notin> set (completed_packages t)) (work_packages t))) t))
        else
          (case gather (w r) 0 t (select_batch t) of
             (True, t') \<Rightarrow>
               (case execute_loop n w (Suc r) t' of
                  (log, res) \<Rightarrow> ((completed_packages t, select_batch t) # log, res))
           | (False, t') \<Rightarrow> ([(completed_packages t, select_batch t)], Some (Awaiting t')))
      else ([], Some (Exited All_completed t)))"

definition execute_work_packages ::
  "nat \<Rightarrow> workers \<Rightarrow> coding_team \<Rightarrow> dispatch_log \<times> run_end option" where
  "execute_work_packages n w t = execute_loop n w 0 (t\<lparr>state := EXECUTING\<rparr>)"

section \<open>The final report\<close>

text \<open>
  The entries of the report of \<open>generate_final_report\<close> that are computed from the
  team's own state. The others come from collaborators: the clock, the principle
  engineer's design summary, each agent's own status and the workspace statistics.
  \<open>success_rate\<close> is \<open>completed / total * 100\<close>, a function of two entries kept here.
\<close>

record final_report =
  final_state :: TeamState
  total :: nat
  completed :: nat
  files_created :: nat
  artifacts :: "string option list"
  report_escalation_count :: nat

definition collect_artifacts :: "coding_team \<Rightarrow> string option list" where
  "collect_artifacts t =
     concat (map (\<lambda>p. map file_path (get_files_to_create p))
       (filter (\<lambda>p. package_id p \<in> set (completed_packages t)) (work_packages t)))"

definition generate_final_report :: "coding_team \<Rightarrow> final_report" where
  "generate_final_report t =
     \<lparr>final_state = state t,
      total = length (work_packages t),
      completed = length (completed_packages t),
      files_created = length (collect_artifacts t),
      artifacts = collect_artifacts t,
      report_escalation_count = escalation_count t\<rparr>"

section \<open>Teams used as concrete inputs\<close>

text \<open>
  The team as \<open>__init__\<close>, \<open>initialize_team\<close> and the analysis step leave it: the
  seven registered agents, the planner's packages, nothing completed yet.
\<close>

definition new_team :: "int \<Rightarrow> work_package list \<Rightarrow> coding_team" where
  "new_team width wps =
     \<lparr>state = ANALYZING, agents = initialize_team_agents, work_packages = wps,
      completed_packages = [], escalation_count = 0, batch_processing_size = width\<rparr>"

text \<open>A package with an id, an agent tag, dependencies and file paths.\<close>

definition package :: "string \<Rightarrow> string \<Rightarrow> string list \<Rightarrow> string list \<Rightarrow> work_package" where
  "package pid tag deps paths =
     \<lparr>package_id = pid, agent = Some tag, dependencies = Some deps,
      files_to_create = Some (map (\<lambda>f. \<lparr>file_path = Some f\<rparr>) paths)\<rparr>"

text \<open>Workers whose calls all have the same outcome.\<close>

definition always :: "outcome \<Rightarrow> workers" where
  "always oc = (\<lambda>r i p. oc)"

text \<open>\<open>B\<close> depends on \<open>A\<close>.\<close>

definition team_A_then_B :: coding_team where
  "team_A_then_B = new_team 3
     [package ''A'' ''backend_engineer'' [] [''src/main.py''],
      package ''B'' ''qa_engineer'' [''A''] [''tests/test_main.py'']]"

text \<open>A single package without dependencies.\<close>

definition team_only_A :: coding_team where
  "team_only_A = new_team 3 [package ''A'' ''backend_engineer'' [] [''src/main.py'']]"

text \<open>Two independent packages, which make one batch.\<close>

definition team_F_G :: coding_team where
  "team_F_G = new_team 3
     [package ''F'' ''backend_engineer'' [] [''src/f.py''],
      package ''G'' ''backend_engineer'' [] [''src/g.py'']]"

text \<open>Workers whose calls return, except those for the package with the given id.\<close>

definition only_fails :: "string \<Rightarrow> outcome \<Rightarrow> workers" where
  "only_fails pid oc = (\<lambda>r i p. if package_id p = pid then oc else Returns)"

text \<open>\<open>X\<close> and \<open>Y\<close> depend on each other; \<open>A\<close> depends on nothing.\<close>

definition team_cycle :: coding_team where
  "team_cycle = new_team 3
     [package ''A'' ''backend_engineer'' [] [''src/main.py''],
      package ''X'' ''backend_engineer'' [''Y''] [''src/x.py''],
      package ''Y'' ''backend_engineer'' [''X''] [''src/y.py'']]"

text \<open>Two teams that differ in the package that waits for the id \<open>X\<close> no package has.\<close>

definition team_blocked_B :: coding_team where
  "team_blocked_B = new_team 3
     [package ''A'' ''backend_engineer'' [] [''src/main.py''],
      package ''B'' ''backend_engineer'' [''X''] [''src/b.py'']]"

definition team_blocked_C :: coding_team where
  "team_blocked_C = new_team 3
     [package ''A'' ''backend_engineer'' [] [''src/main.py''],
      package ''C'' ''backend_engineer'' [''X''] [''src/c.py'']]"

text \<open>\<open>P\<close> depends on the id \<open>X\<close>, which no package has.\<close>

definition team_missing_dep :: coding_team where
  "team_missing_dep = new_team 3
     [package ''A'' ''backend_engineer'' [] [''src/main.py''],
      package ''P'' ''backend_engineer'' [''X''] [''src/p.py'']]"

text \<open>
  \<open>C\<close> and \<open>D\<close> depend on \<open>A\<close> and stand before \<open>B\<close> and \<open>A\<close>, which depend on
  nothing; a batch holds two packages.
\<close>

definition team_starved :: coding_team where
  "team_starved = new_team 2
     [package ''C'' ''backend_engineer'' [''A''] [''src/c.py''],
      package ''D'' ''backend_engineer'' [''A''] [''src/d.py''],
      package ''B'' ''backend_engineer'' [] [''src/b.py''],
      package ''A'' ''backend_engineer'' [] [''src/main.py'']]"

text \<open>Workers whose calls raise, except those for the package with the given id.\<close>

definition only_returns :: "string \<Rightarrow> workers" where
  "only_returns pid = (\<lambda>r i p. if package_id p = pid then Returns else Raises)"

section \<open>Auxiliary notions for the proofs\<close>

text \<open>
  The packages of a batch whose call was made and returned, and whether every task of
  the batch finishes. Both are read off the oracle; \<open>gather\<close> is characterised by
  them below.
\<close>

fun succeeded :: "(string \<rightharpoonup> worker_agent) \<Rightarrow> (nat \<Rightarrow> work_package \<Rightarrow> outcome) \<Rightarrow> nat
    \<Rightarrow> work_package list \<Rightarrow> work_package list" where
  "succeeded ags w i [] = []"
| "succeeded ags w i (p # ps) =
     (if find_agent_for_package ags p \<noteq> None \<and> w i p = Returns
      then p # succeeded ags w (Suc i) ps else succeeded ags w (Suc i) ps)"

fun all_finish :: "(string \<rightharpoonup> worker_agent) \<Rightarrow> (nat \<Rightarrow> work_package \<Rightarrow> outcome) \<Rightarrow> nat
    \<Rightarrow> work_package list \<Rightarrow> bool" where
  "all_finish ags w i [] = True"
| "all_finish ags w i (p # ps) =
     ((find_agent_for_package ags p = None \<or> w i p \<noteq> Never_returns) \<and> all_finish ags w (Suc i) ps)"

text \<open>Some file of the package has a type among \<open>kinds\<close>.\<close>

definition hinted :: "string list \<Rightarrow> work_package \<Rightarrow> bool" where
  "hinted kinds p = (\<exists>ft\<in>set (file_types p). ft \<in> set kinds)"

text \<open>
  The packages whose id is completed and which do not depend on \<open>d\<close>: when \<open>d\<close> is
  never completed, every completion is that of one of them.
\<close>

definition counted :: "string \<Rightarrow> coding_team \<Rightarrow> work_package list" where
  "counted d t =
     filter (\<lambda>q. package_id q \<in> set (completed_packages t) \<and> d \<notin> set (get_dependencies q))
       (work_packages t)"

text \<open>The team after the batch of round \<open>r\<close>.\<close>

definition after_batch :: "workers \<Rightarrow> nat \<Rightarrow> coding_team \<Rightarrow> coding_team" where
  "after_batch w r t =
     t\<lparr>completed_packages :=
          completed_packages t @ map package_id (succeeded (agents t) (w r) 0 (select_batch t))\<rparr>"

section \<open>Lemmas about routing\<close>

lemma any_type_iff: "any_type kinds fts \<longleftrightarrow> (\<exists>ft\<in>set fts. ft \<in> set kinds)"
  by (simp add: any_type_def list_ex_iff)

lemma get_file_type_test:
  assumes "sublist ''test'' (lower path) \<or> sublist ''spec'' (lower path)"
  shows "get_file_type path = ''test''"
proof -
  from assms have "lower path \<noteq> []"
    by auto
  then have "path \<noteq> []"
    by (auto simp: lower_def)
  with assms show ?thesis
    by (simp add: get_file_type_def any_in_def)
qed

lemma lower_test_main: "lower ''tests/Test_main.py'' = ''tests/test_main.py''"
  by (simp add: lower_def lower_char_def)

lemma fallback_chain:
  assumes "mapped_name (get_agent p) \<notin> dom ags"
  shows "find_agent_for_package ags p =
     (if hinted [''python'', ''api''] p then ags ''backend_specialist''
      else if hinted [''html'', ''css'', ''javascript''] p then ags ''frontend_specialist''
      else if hinted [''ml'', ''data''] p then ags ''ml_specialist''
      else if hinted [''docker'', ''deploy''] p then ags ''devops_specialist''
      else if hinted [''test''] p then ags ''qa_specialist''
      else ags ''fullstack_specialist'')"
  using assms by (simp add: find_agent_for_package_def Let_def any_type_iff hinted_def)

lemma not_hinted_no_files: "get_files_to_create p = [] \<Longrightarrow> \<not> hinted kinds p"
  by (simp add: hinted_def file_types_def)

lemma primary_names:
  "mapped_name tag \<in> dom initialize_team_agents \<longleftrightarrow>
     tag \<in> set [''backend_specialist'', ''frontend_specialist'', ''fullstack_specialist'',
                ''ml_specialist'', ''devops_specialist'', ''qa_specialist'',
                ''requirements_analyst'', ''backend_engineer'', ''frontend_engineer'',
                ''fullstack_engineer'', ''ml_engineer'', ''devops_engineer'', ''qa_engineer'']"
  by (auto simp: mapped_name_def agent_mapping_def initialize_team_agents_def dom_def
      split: if_splits)

section \<open>Lemmas about one batch\<close>

lemma execute_single_package_eq:
  "execute_single_package oc t p =
     (find_agent_for_package (agents t) p = None \<or> oc \<noteq> Never_returns,
      if find_agent_for_package (agents t) p \<noteq> None \<and> oc = Returns
      then t\<lparr>completed_packages := completed_packages t @ [package_id p]\<rparr> else t)"
  by (cases oc) (auto simp: execute_single_package_def split: option.splits)

lemma gather_eq:
  "gather w i t b =
     (all_finish (agents t) w i b,
      t\<lparr>completed_packages := completed_packages t @ map package_id (succeeded (agents t) w i b)\<rparr>)"
  by (induction b arbitrary: i t) (auto simp: execute_single_package_eq)

lemma succeeded_subseq: "subseq (succeeded ags w i b) b"
  by (induction b arbitrary: i) auto

lemma succeeded_set: "set (succeeded ags w i b) \<subseteq> set b"
  by (induction b arbitrary: i) auto

lemma succeeded_nth:
  "x \<in> set (succeeded ags w i b) \<Longrightarrow>
     \<exists>k<length b. b ! k = x \<and> find_agent_for_package ags x \<noteq> None \<and> w (i + k) x = Returns"
proof (induction b arbitrary: i)
  case Nil
  then show ?case by simp
next
  case (Cons p ps)
  show ?case
  proof (cases "x = p \<and> find_agent_for_package ags p \<noteq> None \<and> w i p = Returns")
    case True
    then have "(p # ps) ! 0 = x \<and> find_agent_for_package ags x \<noteq> None \<and> w (i + 0) x = Returns"
      by simp
    then show ?thesis by (metis length_Cons zero_less_Suc)
  next
    case False
    with Cons.prems have "x \<in> set (succeeded ags w (Suc i) ps)"
      by (auto split: if_splits)
    from Cons.IH [OF this] obtain k where
      "k < length ps" "ps ! k = x" "find_agent_for_package ags x \<noteq> None" "w (Suc i + k) x = Returns"
      by blast
    then have "Suc k < length (p # ps) \<and> (p # ps) ! Suc k = x \<and>
        find_agent_for_package ags x \<noteq> None \<and> w (i + Suc k) x = Returns"
      by simp
    then show ?thesis by blast
  qed
qed

lemma nth_succeeded:
  "k < length b \<Longrightarrow> find_agent_for_package ags (b ! k) \<noteq> None \<Longrightarrow> w (i + k) (b ! k) = Returns
     \<Longrightarrow> b ! k \<in> set (succeeded ags w i b)"
proof (induction b arbitrary: i k)
  case Nil
  then show ?case by simp
next
  case (Cons p ps)
  show ?case
  proof (cases k)
    case 0
    with Cons.prems show ?thesis by simp
  next
    case (Suc k')
    with Cons.prems have "ps ! k' \<in> set (succeeded ags w (Suc i) ps)"
      by (intro Cons.IH) auto
    with Suc show ?thesis by simp
  qed
qed

lemma succeeded_all:
  "\<forall>p\<in>set b. find_agent_for_package ags p \<noteq> None \<Longrightarrow> \<forall>i p. w i p = Returns \<Longrightarrow>
     succeeded ags w i b = b"
  by (induction b arbitrary: i) auto

lemma all_finish_all:
  "\<forall>i p. w i p = Returns \<Longrightarrow> all_finish ags w i b"
  by (induction b arbitrary: i) auto

lemma subseq_take_self: "subseq (take n xs) xs"
proof -
  have "subseq (take n xs) (take n xs @ drop n xs)"
    by (rule list_emb_prefix) simp
  then show ?thesis by simp
qed

lemma select_batch_subseq: "subseq (select_batch t) (get_available_packages t)"
  by (simp add: select_batch_def py_prefix_def Let_def subseq_take_self)

lemma select_batch_set: "set (select_batch t) \<subseteq> set (get_available_packages t)"
  by (auto simp: select_batch_def py_prefix_def Let_def dest: in_set_takeD)

lemma select_batch_nonempty:
  "get_available_packages t \<noteq> [] \<Longrightarrow> 1 \<le> batch_processing_size t \<Longrightarrow> select_batch t \<noteq> []"
  by (cases "get_available_packages t") (auto simp: select_batch_def py_prefix_def Let_def min_def)

lemma available_not_completed:
  "p \<in> set (get_available_packages t) \<Longrightarrow> package_id p \<notin> set (completed_packages t)"
  by (simp add: get_available_packages_def)

lemma available_dependencies:
  "p \<in> set (get_available_packages t) \<Longrightarrow> set (get_dependencies p) \<subseteq> set (completed_packages t)"
  by (auto simp: get_available_packages_def list_all_iff)

lemma available_member:
  "p \<in> set (get_available_packages t) \<Longrightarrow> p \<in> set (work_packages t)"
  by (simp add: get_available_packages_def)


lemma all_finish_iff:
  "all_finish ags w i b \<longleftrightarrow>
     (\<forall>k<length b. find_agent_for_package ags (b ! k) = None \<or> w (i + k) (b ! k) \<noteq> Never_returns)"
proof (induction b arbitrary: i)
  case Nil
  then show ?case by simp
next
  case (Cons p ps)
  have "(\<forall>k<length (p # ps). Q k) \<longleftrightarrow> Q 0 \<and> (\<forall>k<length ps. Q (Suc k))" for Q
    by (auto simp: less_Suc_eq_0_disj)
  then show ?case
    by (simp add: Cons.IH)
qed

lemma succeeded_iff:
  "x \<in> package_id ` set (succeeded ags w i b) \<longleftrightarrow>
     (\<exists>k<length b. package_id (b ! k) = x \<and> find_agent_for_package ags (b ! k) \<noteq> None \<and>
        w (i + k) (b ! k) = Returns)"
proof
  assume "x \<in> package_id ` set (succeeded ags w i b)"
  then obtain q where "q \<in> set (succeeded ags w i b)" "package_id q = x"
    by auto
  with succeeded_nth [of q ags w i b] show
    "\<exists>k<length b. package_id (b ! k) = x \<and> find_agent_for_package ags (b ! k) \<noteq> None \<and>
        w (i + k) (b ! k) = Returns"
    by auto
next
  assume "\<exists>k<length b. package_id (b ! k) = x \<and> find_agent_for_package ags (b ! k) \<noteq> None \<and>
        w (i + k) (b ! k) = Returns"
  then obtain k where "k < length b" "package_id (b ! k) = x"
    "find_agent_for_package ags (b ! k) \<noteq> None" "w (i + k) (b ! k) = Returns"
    by blast
  with nth_succeeded [of k b ags w i] show "x \<in> package_id ` set (succeeded ags w i b)"
    by blast
qed

section \<open>Lemmas about the loop\<close>

lemma after_batch_fields [simp]:
  "agents (after_batch w r t) = agents t"
  "work_packages (after_batch w r t) = work_packages t"
  "batch_processing_size (after_batch w r t) = batch_processing_size t"
  "state (after_batch w r t) = state t"
  "escalation_count (after_batch w r t) = escalation_count t"
  by (simp_all add: after_batch_def)

lemma after_batch_completed:
  "completed_packages (after_batch w r t) =
     completed_packages t @ map package_id (succeeded (agents t) (w r) 0 (select_batch t))"
  by (simp add: after_batch_def)

lemma execute_loop_Suc:
  "execute_loop (Suc n) w r t =
     (if length (completed_packages t) < length (work_packages t) then
        if get_available_packages t = [] then
          ([], Some (Exited (No_available
             (filter (\<lambda>wp. package_id wp \<notin> set (completed_packages t)) (work_packages t))) t))
        else if all_finish (agents t) (w r) 0 (select_batch t) then
          ((completed_packages t, select_batch t) # fst (execute_loop n w (Suc r) (after_batch w r t)),
           snd (execute_loop n w (Suc r) (after_batch w r t)))
        else ([(completed_packages t, select_batch t)], Some (Awaiting (after_batch w r t)))
      else ([], Some (Exited All_completed t)))"
  by (simp add: gather_eq after_batch_def split: prod.splits)

declare execute_loop.simps(2) [simp del]

lemma log_entry_selected:
  "(c, b) \<in> set (fst (execute_loop n w r t)) \<Longrightarrow>
     \<exists>t'. c = completed_packages t' \<and> b = select_batch t' \<and> agents t' = agents t \<and>
          work_packages t' = work_packages t \<and>
          set (completed_packages t) \<subseteq> set (completed_packages t')"
proof (induction n arbitrary: r t)
  case 0
  then show ?case by (simp split: if_splits)
next
  case (Suc n)
  show ?case
  proof (cases "(c, b) = (completed_packages t, select_batch t)")
    case True
    then show ?thesis by blast
  next
    case False
    with Suc.prems have "(c, b) \<in> set (fst (execute_loop n w (Suc r) (after_batch w r t)))"
      by (auto simp: execute_loop_Suc split: if_splits)
    from Suc.IH [OF this] obtain t' where
      "c = completed_packages t'" "b = select_batch t'" "agents t' = agents t"
      "work_packages t' = work_packages t"
      "set (completed_packages (after_batch w r t)) \<subseteq> set (completed_packages t')"
      by auto
    then show ?thesis by (auto simp: after_batch_completed)
  qed
qed

lemma log_length: "length (fst (execute_loop n w r t)) \<le> n"
  by (induction n arbitrary: r t) (auto simp: execute_loop_Suc)

lemma log_nth_origin:
  "j < length (fst (execute_loop n w r t)) \<Longrightarrow> d \<in> set (fst (fst (execute_loop n w r t) ! j)) \<Longrightarrow>
     d \<in> set (completed_packages t) \<or>
     (\<exists>i<j. \<exists>k<length (snd (fst (execute_loop n w r t) ! i)).
        package_id (snd (fst (execute_loop n w r t) ! i) ! k) = d \<and>
        find_agent_for_package (agents t) (snd (fst (execute_loop n w r t) ! i) ! k) \<noteq> None \<and>
        w (r + i) k (snd (fst (execute_loop n w r t) ! i) ! k) = Returns)"
proof (induction n arbitrary: r t j)
  case 0
  then show ?case by (simp split: if_splits)
next
  case (Suc n)
  let ?t' = "after_batch w r t"
  let ?log' = "fst (execute_loop n w (Suc r) ?t')"
  let ?log = "fst (execute_loop (Suc n) w r t)"
  show ?case
  proof (cases j)
    case 0
    with Suc.prems show ?thesis
      by (auto simp: execute_loop_Suc split: if_splits)
  next
    case (Suc j')
    with Suc.prems have log: "?log = (completed_packages t, select_batch t) # ?log'"
      by (auto simp: execute_loop_Suc split: if_splits)
    with Suc Suc.prems have j': "j' < length ?log'" and d: "d \<in> set (fst (?log' ! j'))"
      by simp_all
    from Suc.IH [OF j' d] consider
      (old) "d \<in> set (completed_packages t)"
      | (now) "d \<in> package_id ` set (succeeded (agents t) (w r) 0 (select_batch t))"
      | (later) "\<exists>i<j'. \<exists>k<length (snd (?log' ! i)).
          package_id (snd (?log' ! i) ! k) = d \<and>
          find_agent_for_package (agents t) (snd (?log' ! i) ! k) \<noteq> None \<and>
          w (Suc r + i) k (snd (?log' ! i) ! k) = Returns"
      by (auto simp: after_batch_completed)
    then show ?thesis
    proof cases
      case old
      then show ?thesis by simp
    next
      case now
      then obtain x where "x \<in> set (succeeded (agents t) (w r) 0 (select_batch t))" "package_id x = d"
        by auto
      with succeeded_nth [of x "agents t" "w r" 0 "select_batch t"] obtain k where
        "k < length (select_batch t)" "select_batch t ! k = x"
        "find_agent_for_package (agents t) x \<noteq> None" "w r k x = Returns"
        by auto
      with \<open>package_id x = d\<close> log Suc have
        "0 < j \<and> k < length (snd (?log ! 0)) \<and> package_id (snd (?log ! 0) ! k) = d \<and>
         find_agent_for_package (agents t) (snd (?log ! 0) ! k) \<noteq> None \<and>
         w (r + 0) k (snd (?log ! 0) ! k) = Returns"
        by simp
      then show ?thesis by blast
    next
      case later
      then obtain i k where "i < j'" "k < length (snd (?log' ! i))"
        "package_id (snd (?log' ! i) ! k) = d"
        "find_agent_for_package (agents t) (snd (?log' ! i) ! k) \<noteq> None"
        "w (Suc r + i) k (snd (?log' ! i) ! k) = Returns"
        by blast
      with log Suc have
        "Suc i < j \<and> k < length (snd (?log ! Suc i)) \<and> package_id (snd (?log ! Suc i) ! k) = d \<and>
         find_agent_for_package (agents t) (snd (?log ! Suc i) ! k) \<noteq> None \<and>
         w (r + Suc i) k (snd (?log ! Suc i) ! k) = Returns"
        by simp
      then show ?thesis by blast
    qed
  qed
qed


lemma after_batch_completed_set:
  "set (completed_packages (after_batch w r t)) \<subseteq>
     set (completed_packages t) \<union> package_id ` set (get_available_packages t)"
  using succeeded_set [of "agents t" "w r" 0 "select_batch t"] select_batch_set [of t]
  by (auto simp: after_batch_completed)

lemma loop_exit_no_available:
  "snd (execute_loop n w r t) = Some (Exited (No_available bl) t') \<Longrightarrow>
     bl = filter (\<lambda>wp. package_id wp \<notin> set (completed_packages t')) (work_packages t') \<and>
     get_available_packages t' = [] \<and>
     length (completed_packages t') < length (work_packages t') \<and>
     work_packages t' = work_packages t \<and> agents t' = agents t \<and> state t' = state t"
proof (induction n arbitrary: r t)
  case 0
  then show ?case by (simp split: if_splits)
next
  case (Suc n)
  show ?case
  proof (cases "length (completed_packages t) < length (work_packages t) \<and>
      get_available_packages t \<noteq> [] \<and> all_finish (agents t) (w r) 0 (select_batch t)")
    case True
    with Suc.prems have
      "snd (execute_loop n w (Suc r) (after_batch w r t)) = Some (Exited (No_available bl) t')"
      by (simp add: execute_loop_Suc)
    from Suc.IH [OF this] show ?thesis by auto
  next
    case False
    with Suc.prems show ?thesis
      by (auto simp: execute_loop_Suc split: if_splits)
  qed
qed

lemma closed_set_invariant:
  assumes "\<forall>p\<in>set (work_packages t). package_id p \<in> S \<longrightarrow> (\<exists>d\<in>set (get_dependencies p). d \<in> S)"
    and "set (completed_packages t) \<inter> S = {}"
  shows "set (completed_packages (after_batch w r t)) \<inter> S = {}"
proof -
  have "package_id p \<notin> S" if "p \<in> set (get_available_packages t)" for p
  proof
    assume "package_id p \<in> S"
    with assms(1) that obtain d where "d \<in> set (get_dependencies p)" "d \<in> S"
      using available_member by blast
    moreover from that have "set (get_dependencies p) \<subseteq> set (completed_packages t)"
      by (rule available_dependencies)
    ultimately show False using assms(2) by blast
  qed
  with assms(2) after_batch_completed_set [of w r t] show ?thesis
    by blast
qed

lemma closed_set_log:
  assumes "\<forall>p\<in>set (work_packages t). package_id p \<in> S \<longrightarrow> (\<exists>d\<in>set (get_dependencies p). d \<in> S)"
    and "set (completed_packages t) \<inter> S = {}"
    and "(c, b) \<in> set (fst (execute_loop n w r t))"
  shows "set c \<inter> S = {} \<and> (\<forall>p\<in>set b. package_id p \<notin> S)"
  using assms
proof (induction n arbitrary: r t)
  case 0
  then show ?case by (simp split: if_splits)
next
  case (Suc n)
  have batch: "package_id p \<notin> S" if "p \<in> set (select_batch t)" for p
  proof
    assume "package_id p \<in> S"
    from that have av: "p \<in> set (get_available_packages t)"
      using select_batch_set by blast
    with Suc.prems(1) \<open>package_id p \<in> S\<close> obtain d where "d \<in> set (get_dependencies p)" "d \<in> S"
      using available_member by blast
    moreover from av have "set (get_dependencies p) \<subseteq> set (completed_packages t)"
      by (rule available_dependencies)
    ultimately show False using Suc.prems(2) by blast
  qed
  show ?case
  proof (cases "(c, b) = (completed_packages t, select_batch t)")
    case True
    with batch Suc.prems(2) show ?thesis by auto
  next
    case False
    with Suc.prems(3) have in_rest: "(c, b) \<in> set (fst (execute_loop n w (Suc r) (after_batch w r t)))"
      by (auto simp: execute_loop_Suc split: if_splits)
    have "\<forall>p\<in>set (work_packages (after_batch w r t)).
        package_id p \<in> S \<longrightarrow> (\<exists>d\<in>set (get_dependencies p). d \<in> S)"
      using Suc.prems(1) by simp
    moreover have "set (completed_packages (after_batch w r t)) \<inter> S = {}"
      using Suc.prems(1,2) by (rule closed_set_invariant)
    ultimately show ?thesis
      using in_rest by (rule Suc.IH)
  qed
qed

lemma loop_terminates:
  assumes "1 \<le> batch_processing_size t"
    and "\<forall>r i p. w r i p = Returns"
    and "\<forall>p\<in>set (work_packages t). find_agent_for_package (agents t) p \<noteq> None"
    and "length (work_packages t) - length (completed_packages t) \<le> n"
  shows "\<exists>e t'. snd (execute_loop n w r t) = Some (Exited e t')"
  using assms
proof (induction n arbitrary: r t)
  case 0
  then show ?case by simp
next
  case (Suc n)
  show ?case
  proof (cases "length (completed_packages t) < length (work_packages t) \<and>
      get_available_packages t \<noteq> []")
    case False
    then show ?thesis by (auto simp: execute_loop_Suc)
  next
    case True
    let ?b = "select_batch t"
    let ?t' = "after_batch w r t"
    from True Suc.prems(1) have ne: "?b \<noteq> []"
      by (simp add: select_batch_nonempty)
    have "set ?b \<subseteq> set (work_packages t)"
      using select_batch_set [of t] available_member by blast
    with Suc.prems(3) have "\<forall>p\<in>set ?b. find_agent_for_package (agents t) p \<noteq> None"
      by blast
    with Suc.prems(2) have "succeeded (agents t) (w r) 0 ?b = ?b"
      by (intro succeeded_all) auto
    then have len: "length (completed_packages ?t') = length (completed_packages t) + length ?b"
      by (simp add: after_batch_completed)
    from ne have "Suc 0 \<le> length ?b"
      by (cases ?b) simp_all
    with True Suc.prems(4) have
      "length (work_packages t) - (length (completed_packages t) + length ?b) \<le> n"
      by arith
    with len have "length (work_packages ?t') - length (completed_packages ?t') \<le> n"
      by simp
    moreover have "1 \<le> batch_processing_size ?t'" using Suc.prems(1) by simp
    moreover have "\<forall>p\<in>set (work_packages ?t'). find_agent_for_package (agents ?t') p \<noteq> None"
      using Suc.prems(3) by simp
    ultimately have "\<exists>e t'. snd (execute_loop n w (Suc r) ?t') = Some (Exited e t')"
      using Suc.prems(2) by (intro Suc.IH)
    moreover from Suc.prems(2) have "all_finish (agents t) (w r) 0 ?b"
      by (intro all_finish_all) auto
    ultimately show ?thesis
      using True by (simp add: execute_loop_Suc)
  qed
qed

lemma succeeded_none: "\<forall>i p. w i p \<noteq> Returns \<Longrightarrow> succeeded ags w i b = []"
  by (induction b arbitrary: i) auto

lemma loop_never_exits:
  assumes "length (completed_packages t) < length (work_packages t)"
    and "get_available_packages t \<noteq> []"
    and "\<forall>r i p. w r i p = Raises"
  shows "snd (execute_loop n w r t) = None"
proof (induction n arbitrary: r)
  case 0
  from assms(1) show ?case by simp
next
  case (Suc n)
  from assms(3) have "succeeded (agents t) (w r) 0 (select_batch t) = []"
    by (intro succeeded_none) simp
  then have same: "after_batch w r t = t"
    by (simp add: after_batch_def)
  from assms(3) have "all_finish (agents t) (w r) 0 (select_batch t)"
    by (simp add: all_finish_iff)
  with assms(1,2) same Suc.IH show ?case
    by (simp add: execute_loop_Suc)
qed


lemma length_filter_disj:
  "\<forall>x\<in>set xs. \<not> (P x \<and> Q x) \<Longrightarrow>
     length (filter (\<lambda>x. P x \<or> Q x) xs) = length (filter P xs) + length (filter Q xs)"
  by (induction xs) auto

lemma subseq_all_filter:
  assumes "subseq ys xs" and "\<forall>y\<in>set ys. N y"
  shows "length ys \<le> length (filter N xs)"
proof -
  from assms(1) have "subseq (filter N ys) (filter N xs)"
    by (rule subseq_filter)
  moreover from assms(2) have "filter N ys = ys"
    by (simp add: filter_id_conv)
  ultimately show ?thesis
    by (metis list_emb_length)
qed

lemma counted_after_batch:
  assumes "length (completed_packages t) \<le> length (counted d t)"
    and "d \<notin> set (completed_packages t)"
  shows "length (completed_packages (after_batch w r t)) \<le> length (counted d (after_batch w r t))"
proof -
  let ?c = "completed_packages t"
  let ?s = "succeeded (agents t) (w r) 0 (select_batch t)"
  let ?c' = "?c @ map package_id ?s"
  let ?P = "\<lambda>q. package_id q \<in> set ?c \<and> d \<notin> set (get_dependencies q)"
  let ?N = "\<lambda>q. package_id q \<in> set ?c' \<and> package_id q \<notin> set ?c \<and> d \<notin> set (get_dependencies q)"
  have "subseq ?s (select_batch t)"
    by (rule succeeded_subseq)
  also have "subseq (select_batch t) (get_available_packages t)"
    by (rule select_batch_subseq)
  also have "subseq (get_available_packages t) (work_packages t)"
    by (simp add: get_available_packages_def)
  finally have sub: "subseq ?s (work_packages t)" .
  have "?N q" if "q \<in> set ?s" for q
  proof -
    from that have "q \<in> set (get_available_packages t)"
      using succeeded_set select_batch_set by blast
    then have "package_id q \<notin> set ?c" "set (get_dependencies q) \<subseteq> set ?c"
      by (simp_all add: available_not_completed available_dependencies)
    with assms(2) that show ?thesis by auto
  qed
  with sub have "length ?s \<le> length (filter ?N (work_packages t))"
    by (intro subseq_all_filter) auto
  moreover have "length (filter (\<lambda>q. ?P q \<or> ?N q) (work_packages t)) =
      length (filter ?P (work_packages t)) + length (filter ?N (work_packages t))"
    by (rule length_filter_disj) auto
  moreover have "(\<lambda>q. ?P q \<or> ?N q) =
      (\<lambda>q. package_id q \<in> set ?c' \<and> d \<notin> set (get_dependencies q))"
    by auto
  ultimately have "length ?c + length ?s \<le>
      length (filter (\<lambda>q. package_id q \<in> set ?c' \<and> d \<notin> set (get_dependencies q)) (work_packages t))"
    using assms(1) by (simp add: counted_def)
  then show ?thesis
    by (simp add: counted_def after_batch_completed)
qed

lemma counted_less:
  assumes "length (completed_packages t) \<le> length (counted d t)"
    and "p \<in> set (work_packages t)" and "d \<in> set (get_dependencies p)"
  shows "length (completed_packages t) < length (work_packages t)"
proof -
  from assms(2,3) have "length (counted d t) < length (work_packages t)"
    unfolding counted_def by (intro length_filter_less) auto
  with assms(1) show ?thesis by simp
qed

lemma unknown_id_not_completed:
  assumes "d \<notin> package_id ` set (work_packages t)" and "d \<notin> set (completed_packages t)"
  shows "d \<notin> set (completed_packages (after_batch w r t))"
  using closed_set_invariant [of t "{d}" w r] assms by auto

lemma loop_not_all_completed:
  assumes "length (completed_packages t) \<le> length (counted d t)"
    and "d \<notin> set (completed_packages t)"
    and "d \<notin> package_id ` set (work_packages t)"
    and "p \<in> set (work_packages t)" and "d \<in> set (get_dependencies p)"
  shows "snd (execute_loop n w r t) \<noteq> Some (Exited All_completed t')"
  using assms
proof (induction n arbitrary: r t)
  case 0
  then have "length (completed_packages t) < length (work_packages t)"
    by (intro counted_less)
  then show ?case by simp
next
  case (Suc n)
  from Suc.prems(1,4,5) have less: "length (completed_packages t) < length (work_packages t)"
    by (rule counted_less)
  let ?t' = "after_batch w r t"
  have "snd (execute_loop n w (Suc r) ?t') \<noteq> Some (Exited All_completed t')"
  proof (rule Suc.IH)
    show "length (completed_packages ?t') \<le> length (counted d ?t')"
      using Suc.prems(1,2) by (rule counted_after_batch)
    show "d \<notin> set (completed_packages ?t')"
      using Suc.prems(3,2) by (rule unknown_id_not_completed)
    show "d \<notin> package_id ` set (work_packages ?t')"
      using Suc.prems(3) by simp
    show "p \<in> set (work_packages ?t')"
      using Suc.prems(4) by simp
    show "d \<in> set (get_dependencies p)"
      by (rule Suc.prems(5))
  qed
  with less show ?case
    by (simp add: execute_loop_Suc)
qed







section \<open>Evaluating concrete runs\<close>

lemmas route_defs = find_agent_for_package_def mapped_name_def agent_mapping_def get_agent_def
  initialize_team_agents_def file_types_def get_files_to_create_def get_file_path_def
  any_type_def dom_def package_def

lemmas sched_defs = execute_work_packages_def new_team_def get_available_packages_def
  select_batch_def py_prefix_def get_dependencies_def after_batch_def execute_loop_Suc always_def

lemma run_A_then_B:
  "execute_work_packages 3 (always Returns) team_A_then_B =
     ([([], [package ''A'' ''backend_engineer'' [] [''src/main.py'']]),
       ([''A''], [package ''B'' ''qa_engineer'' [''A''] [''tests/test_main.py'']])],
      Some (Exited All_completed
        (team_A_then_B\<lparr>state := EXECUTING, completed_packages := [''A'', ''B'']\<rparr>)))"
  by (simp add: team_A_then_B_def sched_defs route_defs eval_nat_numeral)

lemma run_only_A_raises:
  "execute_work_packages 3 (always Raises) team_only_A =
     ([([], [package ''A'' ''backend_engineer'' [] [''src/main.py'']]),
       ([], [package ''A'' ''backend_engineer'' [] [''src/main.py'']]),
       ([], [package ''A'' ''backend_engineer'' [] [''src/main.py'']])], None)"
  by (simp add: team_only_A_def sched_defs route_defs eval_nat_numeral)

lemma run_F_hangs:
  "execute_work_packages (Suc n) (only_fails ''F'' Never_returns) team_F_G =
     ([([], [package ''F'' ''backend_engineer'' [] [''src/f.py''],
             package ''G'' ''backend_engineer'' [] [''src/g.py'']])],
      Some (Awaiting (team_F_G\<lparr>state := EXECUTING, completed_packages := [''G'']\<rparr>)))"
  by (simp add: team_F_G_def only_fails_def sched_defs route_defs)

lemma gather_F_raises:
  "gather (only_fails ''F'' Raises 0) 0 team_F_G (work_packages team_F_G) =
     (True, team_F_G\<lparr>completed_packages := [''G'']\<rparr>)"
  by (simp add: team_F_G_def only_fails_def new_team_def gather_eq route_defs)

lemma run_cycle:
  "execute_work_packages 5 (always Returns) team_cycle =
     ([([], [package ''A'' ''backend_engineer'' [] [''src/main.py'']])],
      Some (Exited (No_available
        [package ''X'' ''backend_engineer'' [''Y''] [''src/x.py''],
         package ''Y'' ''backend_engineer'' [''X''] [''src/y.py'']])
        (team_cycle\<lparr>state := EXECUTING, completed_packages := [''A'']\<rparr>)))"
  by (simp add: team_cycle_def sched_defs route_defs eval_nat_numeral)

lemma run_blocked_B:
  "execute_work_packages 5 (always Returns) team_blocked_B =
     ([([], [package ''A'' ''backend_engineer'' [] [''src/main.py'']])],
      Some (Exited (No_available [package ''B'' ''backend_engineer'' [''X''] [''src/b.py'']])
        (team_blocked_B\<lparr>state := EXECUTING, completed_packages := [''A'']\<rparr>)))"
  by (simp add: team_blocked_B_def sched_defs route_defs eval_nat_numeral)

lemma run_blocked_C:
  "execute_work_packages 5 (always Returns) team_blocked_C =
     ([([], [package ''A'' ''backend_engineer'' [] [''src/main.py'']])],
      Some (Exited (No_available [package ''C'' ''backend_engineer'' [''X''] [''src/c.py'']])
        (team_blocked_C\<lparr>state := EXECUTING, completed_packages := [''A'']\<rparr>)))"
  by (simp add: team_blocked_C_def sched_defs route_defs eval_nat_numeral)

lemmas report_defs = generate_final_report_def collect_artifacts_def new_team_def package_def
  get_files_to_create_def

lemma report_blocked_B:
  "generate_final_report (team_blocked_B\<lparr>state := EXECUTING, completed_packages := [''A'']\<rparr>) =
     \<lparr>final_state = EXECUTING, total = 2, completed = 1, files_created = 1,
      artifacts = [Some ''src/main.py''], report_escalation_count = 0\<rparr>"
  by (simp add: team_blocked_B_def report_defs)

lemma report_blocked_C:
  "generate_final_report (team_blocked_C\<lparr>state := EXECUTING, completed_packages := [''A'']\<rparr>) =
     \<lparr>final_state = EXECUTING, total = 2, completed = 1, files_created = 1,
      artifacts = [Some ''src/main.py''], report_escalation_count = 0\<rparr>"
  by (simp add: team_blocked_C_def report_defs)

lemma not_available_unmet:
  assumes "get_available_packages t = []" and "p \<in> set (work_packages t)"
    and "package_id p \<notin> set (completed_packages t)"
  shows "\<exists>d\<in>set (get_dependencies p). d \<notin> set (completed_packages t)"
proof (rule ccontr)
  assume "\<not> (\<exists>d\<in>set (get_dependencies p). d \<notin> set (completed_packages t))"
  with assms(2,3) have "p \<in> set (get_available_packages t)"
    by (auto simp: get_available_packages_def list_all_iff)
  with assms(1) show False by simp
qed

lemma run_missing_dep:
  "execute_work_packages 5 (always Returns) team_missing_dep =
     ([([], [package ''A'' ''backend_engineer'' [] [''src/main.py'']])],
      Some (Exited (No_available [package ''P'' ''backend_engineer'' [''X''] [''src/p.py'']])
        (team_missing_dep\<lparr>state := EXECUTING, completed_packages := [''A'']\<rparr>)))"
  by (simp add: team_missing_dep_def sched_defs route_defs eval_nat_numeral)

lemma run_missing_dep_raises:
  "fst (execute_work_packages 3 (always Raises) team_missing_dep) =
     [([], [package ''A'' ''backend_engineer'' [] [''src/main.py'']]),
      ([], [package ''A'' ''backend_engineer'' [] [''src/main.py'']]),
      ([], [package ''A'' ''backend_engineer'' [] [''src/main.py'']])]"
  by (simp add: team_missing_dep_def sched_defs route_defs eval_nat_numeral)

lemma starved_round:
  "execute_loop (Suc n) (only_returns ''A'') r
       (team_starved\<lparr>state := EXECUTING, completed_packages := [''A'']\<rparr>) =
     (([''A''], [package ''C'' ''backend_engineer'' [''A''] [''src/c.py''],
                 package ''D'' ''backend_engineer'' [''A''] [''src/d.py'']]) #
        fst (execute_loop n (only_returns ''A'') (Suc r)
          (team_starved\<lparr>state := EXECUTING, completed_packages := [''A'']\<rparr>)),
      snd (execute_loop n (only_returns ''A'') (Suc r)
          (team_starved\<lparr>state := EXECUTING, completed_packages := [''A'']\<rparr>)))"
  by (simp add: team_starved_def only_returns_def sched_defs route_defs)

lemma starved_rounds:
  "fst (execute_loop n (only_returns ''A'') r
       (team_starved\<lparr>state := EXECUTING, completed_packages := [''A'']\<rparr>)) =
     replicate n ([''A''], [package ''C'' ''backend_engineer'' [''A''] [''src/c.py''],
                            package ''D'' ''backend_engineer'' [''A''] [''src/d.py'']])"
proof (induction n arbitrary: r)
  case 0
  show ?case by (simp add: team_starved_def new_team_def)
next
  case (Suc n)
  then show ?case by (simp only: starved_round fst_conv replicate_Suc)
qed

lemma run_starved:
  "fst (execute_work_packages (Suc n) (only_returns ''A'') team_starved) =
     ([], [package ''B'' ''backend_engineer'' [] [''src/b.py''],
           package ''A'' ''backend_engineer'' [] [''src/main.py'']]) #
     replicate n ([''A''], [package ''C'' ''backend_engineer'' [''A''] [''src/c.py''],
                            package ''D'' ''backend_engineer'' [''A''] [''src/d.py'']])"
proof -
  have "fst (execute_work_packages (Suc n) (only_returns ''A'') team_starved) =
      ([], [package ''B'' ''backend_engineer'' [] [''src/b.py''],
            package ''A'' ''backend_engineer'' [] [''src/main.py'']]) #
      fst (execute_loop n (only_returns ''A'') (Suc 0)
        (team_starved\<lparr>state := EXECUTING, completed_packages := [''A'']\<rparr>))"
    by (simp add: team_starved_def only_returns_def sched_defs route_defs)
  then show ?thesis
    by (simp only: starved_rounds)
qed

section \<open>C1: a package is dispatched again after a failed attempt\<close>




section \<open>C2: dispatch only after the dependencies completed\<close>

text \<open>
  Claim C2. Whatever the workers do, a package is handed to \<open>_execute_single_package\<close>
  only in a batch selected when every id of its \<open>dependencies\<close> was in
  \<open>completed_packages\<close>; and such an id is there only because it was completed before
  the run, or because a package with that id was dispatched in an earlier batch, was
  routed to an agent and its call returned.
\<close>

theorem dispatch_respects_dependencies:
  assumes "j < length (fst (execute_work_packages n w t))"
    and "p \<in> set (snd (fst (execute_work_packages n w t) ! j))"
    and "dep \<in> set (get_dependencies p)"
  shows "dep \<in> set (fst (fst (execute_work_packages n w t) ! j)) \<and>
     (dep \<in> set (completed_packages t) \<or>
      (\<exists>i<j. \<exists>k<length (snd (fst (execute_work_packages n w t) ! i)).
         package_id (snd (fst (execute_work_packages n w t) ! i) ! k) = dep \<and>
         find_agent_for_package (agents t) (snd (fst (execute_work_packages n w t) ! i) ! k) \<noteq> None \<and>
         w i k (snd (fst (execute_work_packages n w t) ! i) ! k) = Returns))"
proof -
  let ?t = "t\<lparr>state := EXECUTING\<rparr>"
  let ?log = "fst (execute_loop n w 0 ?t)"
  from assms(1) have j: "j < length ?log"
    by (simp add: execute_work_packages_def)
  obtain c b where cb: "?log ! j = (c, b)"
    by (cases "?log ! j")
  with j have "(c, b) \<in> set ?log"
    by (metis nth_mem)
  from log_entry_selected [OF this] obtain t' where
    t': "c = completed_packages t'" "b = select_batch t'"
    by blast
  from assms(2) cb have "p \<in> set b"
    by (simp add: execute_work_packages_def)
  with t' have "p \<in> set (get_available_packages t')"
    using select_batch_set by blast
  with assms(3) t' have "dep \<in> set c"
    using available_dependencies by blast
  with cb have here: "dep \<in> set (fst (?log ! j))"
    by simp
  from log_nth_origin [OF j here] have
    "dep \<in> set (completed_packages ?t) \<or>
     (\<exists>i<j. \<exists>k<length (snd (?log ! i)).
        package_id (snd (?log ! i) ! k) = dep \<and>
        find_agent_for_package (agents ?t) (snd (?log ! i) ! k) \<noteq> None \<and>
        w (0 + i) k (snd (?log ! i) ! k) = Returns)" .
  with here show ?thesis
    by (simp add: execute_work_packages_def)
qed

theorem dispatch_respects_dependencies_witness:
  "''A'' \<in> set (fst (fst (execute_work_packages 3 (always Returns) team_A_then_B) ! 1)) \<and>
     (''A'' \<in> set (completed_packages team_A_then_B) \<or>
      (\<exists>i<1. \<exists>k<length (snd (fst (execute_work_packages 3 (always Returns) team_A_then_B) ! i)).
         package_id (snd (fst (execute_work_packages 3 (always Returns) team_A_then_B) ! i) ! k) = ''A'' \<and>
         find_agent_for_package (agents team_A_then_B)
           (snd (fst (execute_work_packages 3 (always Returns) team_A_then_B) ! i) ! k) \<noteq> None \<and>
         always Returns i k (snd (fst (execute_work_packages 3 (always Returns) team_A_then_B) ! i) ! k)
           = Returns))"
proof -
  have j: "1 < length (fst (execute_work_packages 3 (always Returns) team_A_then_B))"
    by (simp add: run_A_then_B)
  have p: "package ''B'' ''qa_engineer'' [''A''] [''tests/test_main.py'']
      \<in> set (snd (fst (execute_work_packages 3 (always Returns) team_A_then_B) ! 1))"
    by (simp add: run_A_then_B)
  have d: "''A'' \<in> set (get_dependencies (package ''B'' ''qa_engineer'' [''A''] [''tests/test_main.py'']))"
    by (simp add: package_def get_dependencies_def)
  from dispatch_respects_dependencies [OF j p d] show ?thesis .
qed

section \<open>C3: what the run reports when packages are blocked\<close>

text \<open>
  Claim C3 says that the result of the run reports the blocked packages distinctly. The
  loop computes \<open>blocked_packages\<close> for a log line and returns nothing; the result of
  the run is the report of \<open>generate_final_report\<close>, which holds two counts and the
  artifacts of the completed packages. Two runs that dispatch the same batch and then
  block on different packages, \<open>B\<close> in one and \<open>C\<close> in the other, give the same
  report.
\<close>

theorem report_hides_blocked_counterexample:
  "execute_work_packages 5 (always Returns) team_blocked_B =
     ([([], [package ''A'' ''backend_engineer'' [] [''src/main.py'']])],
      Some (Exited (No_available [package ''B'' ''backend_engineer'' [''X''] [''src/b.py'']])
        (team_blocked_B\<lparr>state := EXECUTING, completed_packages := [''A'']\<rparr>))) \<and>
   execute_work_packages 5 (always Returns) team_blocked_C =
     ([([], [package ''A'' ''backend_engineer'' [] [''src/main.py'']])],
      Some (Exited (No_available [package ''C'' ''backend_engineer'' [''X''] [''src/c.py'']])
        (team_blocked_C\<lparr>state := EXECUTING, completed_packages := [''A'']\<rparr>))) \<and>
   generate_final_report (team_blocked_B\<lparr>state := EXECUTING, completed_packages := [''A'']\<rparr>) =
     generate_final_report (team_blocked_C\<lparr>state := EXECUTING, completed_packages := [''A'']\<rparr>) \<and>
   generate_final_report (team_blocked_B\<lparr>state := EXECUTING, completed_packages := [''A'']\<rparr>) =
     \<lparr>final_state = EXECUTING, total = 2, completed = 1, files_created = 1,
      artifacts = [Some ''src/main.py''], report_escalation_count = 0\<rparr>"
  by (simp only: run_blocked_B run_blocked_C report_blocked_B report_blocked_C)

text \<open>
  Claim C3 as amended. When no package is available while fewer ids are completed than
  there are packages, the loop ends in that iteration without a dispatch. Whenever a
  run ends this way, the logged list holds the packages whose id is not completed, each
  of them has a dependency that is not completed, and the report gives the number of
  packages, the number of completed ids and the state \<open>EXECUTING\<close>.
\<close>

theorem blocked_exit_reports_counts:
  "(length (completed_packages t) < length (work_packages t) \<and> get_available_packages t = [] \<longrightarrow>
      execute_loop (Suc n) w r t =
        ([], Some (Exited (No_available
           (filter (\<lambda>wp. package_id wp \<notin> set (completed_packages t)) (work_packages t))) t))) \<and>
   (snd (execute_work_packages m v u) = Some (Exited (No_available bl) u') \<longrightarrow>
      bl = filter (\<lambda>wp. package_id wp \<notin> set (completed_packages u')) (work_packages u) \<and>
      (\<forall>p\<in>set bl. \<exists>d\<in>set (get_dependencies p). d \<notin> set (completed_packages u')) \<and>
      total (generate_final_report u') = length (work_packages u) \<and>
      completed (generate_final_report u') = length (completed_packages u') \<and>
      final_state (generate_final_report u') = EXECUTING)"
proof (intro conjI impI)
  assume "length (completed_packages t) < length (work_packages t) \<and> get_available_packages t = []"
  then show "execute_loop (Suc n) w r t =
        ([], Some (Exited (No_available
           (filter (\<lambda>wp. package_id wp \<notin> set (completed_packages t)) (work_packages t))) t))"
    by (simp add: execute_loop_Suc)
next
  assume run: "snd (execute_work_packages m v u) = Some (Exited (No_available bl) u')"
  then have "snd (execute_loop m v 0 (u\<lparr>state := EXECUTING\<rparr>)) = Some (Exited (No_available bl) u')"
    by (simp add: execute_work_packages_def)
  from loop_exit_no_available [OF this] have
    bl: "bl = filter (\<lambda>wp. package_id wp \<notin> set (completed_packages u')) (work_packages u')"
    and av: "get_available_packages u' = []"
    and wps: "work_packages u' = work_packages u"
    and st: "state u' = EXECUTING"
    by simp_all
  from bl wps show "bl = filter (\<lambda>wp. package_id wp \<notin> set (completed_packages u')) (work_packages u)"
    by simp
  from bl av show "\<forall>p\<in>set bl. \<exists>d\<in>set (get_dependencies p). d \<notin> set (completed_packages u')"
    by (auto intro: not_available_unmet)
  from wps show "total (generate_final_report u') = length (work_packages u)"
    by (simp add: generate_final_report_def)
  show "completed (generate_final_report u') = length (completed_packages u')"
    by (simp add: generate_final_report_def)
  from st show "final_state (generate_final_report u') = EXECUTING"
    by (simp add: generate_final_report_def)
qed

theorem blocked_exit_reports_counts_witness:
  "execute_loop (Suc 0) (always Returns) 1
      (team_blocked_B\<lparr>state := EXECUTING, completed_packages := [''A'']\<rparr>) =
     ([], Some (Exited (No_available [package ''B'' ''backend_engineer'' [''X''] [''src/b.py'']])
        (team_blocked_B\<lparr>state := EXECUTING, completed_packages := [''A'']\<rparr>))) \<and>
   total (generate_final_report
      (team_blocked_B\<lparr>state := EXECUTING, completed_packages := [''A'']\<rparr>)) = 2 \<and>
   completed (generate_final_report
      (team_blocked_B\<lparr>state := EXECUTING, completed_packages := [''A'']\<rparr>)) = 1"
proof -
  let ?u' = "team_blocked_B\<lparr>state := EXECUTING, completed_packages := [''A'']\<rparr>"
  have a: "length (completed_packages ?u') < length (work_packages ?u') \<and>
      get_available_packages ?u' = []"
    by (simp add: team_blocked_B_def new_team_def get_available_packages_def package_def
        get_dependencies_def)
  have b: "snd (execute_work_packages 5 (always Returns) team_blocked_B) =
      Some (Exited (No_available [package ''B'' ''backend_engineer'' [''X''] [''src/b.py'']]) ?u')"
    by (simp add: run_blocked_B)
  have c: "filter (\<lambda>wp. package_id wp \<notin> set (completed_packages ?u')) (work_packages ?u') =
      [package ''B'' ''backend_engineer'' [''X''] [''src/b.py'']]"
    by (simp add: team_blocked_B_def new_team_def package_def)
  have d: "length (work_packages team_blocked_B) = 2"
    by (simp add: team_blocked_B_def new_team_def)
  from blocked_exit_reports_counts [of ?u' 0 "always Returns" 1 5 "always Returns" team_blocked_B
      "[package ''B'' ''backend_engineer'' [''X''] [''src/b.py'']]" ?u'] a b c d
  show ?thesis by simp
qed

section \<open>C4: termination\<close>

text \<open>
  Claim C4 says that the loop terminates, within as many iterations as there are
  packages, whenever the graph is acyclic and every call returns or raises. A single
  package without dependencies whose call raises each time is selected again in every
  round: after three executions of the body the loop is still running, and it is still
  running after any number of them.
\<close>

theorem failing_worker_never_terminates_counterexample:
  "length (work_packages team_only_A) = 1 \<and>
   get_dependencies (package ''A'' ''backend_engineer'' [] [''src/main.py'']) = [] \<and>
   length (fst (execute_work_packages 3 (always Raises) team_only_A)) = 3 \<and>
   (\<forall>n. snd (execute_work_packages n (always Raises) team_only_A) = None)"
proof -
  let ?t = "team_only_A\<lparr>state := EXECUTING\<rparr>"
  have "length (completed_packages ?t) < length (work_packages ?t)"
    by (simp add: team_only_A_def new_team_def)
  moreover have "get_available_packages ?t \<noteq> []"
    by (simp add: team_only_A_def new_team_def get_available_packages_def package_def
        get_dependencies_def)
  moreover have "\<forall>r i p. always Raises r i p = Raises"
    by (simp add: always_def)
  ultimately have "snd (execute_loop n (always Raises) 0 ?t) = None" for n
    by (rule loop_never_exits)
  then have never: "\<forall>n. snd (execute_work_packages n (always Raises) team_only_A) = None"
    by (simp add: execute_work_packages_def)
  have "length (work_packages team_only_A) = 1"
    by (simp add: team_only_A_def new_team_def)
  moreover have "get_dependencies (package ''A'' ''backend_engineer'' [] [''src/main.py'']) = []"
    by (simp add: package_def get_dependencies_def)
  moreover have "length (fst (execute_work_packages 3 (always Raises) team_only_A)) = 3"
    by (simp add: run_only_A_raises)
  ultimately show ?thesis
    using never by (intro conjI)
qed

text \<open>
  Claim C4 as amended. When the batch size is at least 1, every package is routed to an
  agent and every call returns, the loop exits after at most as many executions of its
  body as there are packages, whatever the dependencies are (a cycle included).
\<close>

theorem loop_terminates_when_calls_return:
  assumes "1 \<le> batch_processing_size t"
    and "\<forall>r i p. w r i p = Returns"
    and "\<forall>p\<in>set (work_packages t). find_agent_for_package (agents t) p \<noteq> None"
  shows "(\<exists>e t'. snd (execute_work_packages (length (work_packages t)) w t) = Some (Exited e t')) \<and>
         length (fst (execute_work_packages (length (work_packages t)) w t)) \<le> length (work_packages t)"
proof -
  let ?t = "t\<lparr>state := EXECUTING\<rparr>"
  have "\<exists>e t'. snd (execute_loop (length (work_packages t)) w 0 ?t) = Some (Exited e t')"
    using assms by (intro loop_terminates) simp_all
  then show ?thesis
    by (simp add: execute_work_packages_def log_length)
qed

theorem loop_terminates_when_calls_return_witness:
  "(\<exists>e t'. snd (execute_work_packages 2 (always Returns) team_A_then_B) = Some (Exited e t')) \<and>
   length (fst (execute_work_packages 2 (always Returns) team_A_then_B)) \<le> 2"
proof -
  have len: "length (work_packages team_A_then_B) = 2"
    by (simp add: team_A_then_B_def new_team_def)
  have a: "1 \<le> batch_processing_size team_A_then_B"
    by (simp add: team_A_then_B_def new_team_def)
  have b: "\<forall>r i p. always Returns r i p = Returns"
    by (simp add: always_def)
  have c: "\<forall>p\<in>set (work_packages team_A_then_B).
      find_agent_for_package (agents team_A_then_B) p \<noteq> None"
    by (simp add: team_A_then_B_def new_team_def route_defs)
  from loop_terminates_when_calls_return [OF a b c] len show ?thesis
    by simp
qed

section \<open>C5: no structural validation\<close>

text \<open>
  Claim C5 says that a package set with a dependency cycle, or with a dependency on an
  id no package has, is rejected with an error before anything is dispatched. The source
  checks only that the list of packages is not empty: with \<open>X\<close> and \<open>Y\<close> depending
  on each other the loop starts, dispatches \<open>A\<close>, and ends through its \<open>break\<close> with
  \<open>X\<close> and \<open>Y\<close> left over.
\<close>

theorem cycle_is_not_rejected_counterexample:
  "get_dependencies (package ''X'' ''backend_engineer'' [''Y''] [''src/x.py'']) = [''Y''] \<and>
   get_dependencies (package ''Y'' ''backend_engineer'' [''X''] [''src/y.py'']) = [''X''] \<and>
   execute_work_packages 5 (always Returns) team_cycle =
     ([([], [package ''A'' ''backend_engineer'' [] [''src/main.py'']])],
      Some (Exited (No_available
        [package ''X'' ''backend_engineer'' [''Y''] [''src/x.py''],
         package ''Y'' ''backend_engineer'' [''X''] [''src/y.py'']])
        (team_cycle\<lparr>state := EXECUTING, completed_packages := [''A'']\<rparr>)))"
  using run_cycle by (simp add: package_def get_dependencies_def)

text \<open>
  Claim C5 as amended. Let \<open>S\<close> be a set of ids, none of them completed at the start,
  such that every package with an id in \<open>S\<close> has a dependency in \<open>S\<close>: the ids on a
  cycle, or an id no package has together with the ids of the packages that depend on
  it. Then no package with an id in \<open>S\<close> is ever dispatched, and no id of \<open>S\<close> is ever
  completed.
\<close>

theorem unresolvable_never_dispatched:
  assumes "\<forall>p\<in>set (work_packages t). package_id p \<in> S \<longrightarrow> (\<exists>d\<in>set (get_dependencies p). d \<in> S)"
    and "set (completed_packages t) \<inter> S = {}"
    and "(c, b) \<in> set (fst (execute_work_packages n w t))"
    and "p \<in> set b"
  shows "package_id p \<notin> S \<and> set c \<inter> S = {}"
proof -
  let ?t = "t\<lparr>state := EXECUTING\<rparr>"
  have "\<forall>p\<in>set (work_packages ?t). package_id p \<in> S \<longrightarrow> (\<exists>d\<in>set (get_dependencies p). d \<in> S)"
    using assms(1) by simp
  moreover have "set (completed_packages ?t) \<inter> S = {}"
    using assms(2) by simp
  moreover have "(c, b) \<in> set (fst (execute_loop n w 0 ?t))"
    using assms(3) by (simp add: execute_work_packages_def)
  ultimately have "set c \<inter> S = {} \<and> (\<forall>p\<in>set b. package_id p \<notin> S)"
    by (rule closed_set_log)
  with assms(4) show ?thesis by blast
qed

theorem unresolvable_never_dispatched_witness:
  "package_id (package ''A'' ''backend_engineer'' [] [''src/main.py'']) \<notin> {''X'', ''Y''} \<and>
   set ([] :: string list) \<inter> {''X'', ''Y''} = {}"
proof -
  have a: "\<forall>p\<in>set (work_packages team_cycle).
      package_id p \<in> {''X'', ''Y''} \<longrightarrow> (\<exists>d\<in>set (get_dependencies p). d \<in> {''X'', ''Y''})"
    by (simp add: team_cycle_def new_team_def package_def get_dependencies_def)
  have b: "set (completed_packages team_cycle) \<inter> {''X'', ''Y''} = {}"
    by (simp add: team_cycle_def new_team_def)
  have c: "([], [package ''A'' ''backend_engineer'' [] [''src/main.py'']])
      \<in> set (fst (execute_work_packages 5 (always Returns) team_cycle))"
    by (simp add: run_cycle)
  have d: "package ''A'' ''backend_engineer'' [] [''src/main.py'']
      \<in> set [package ''A'' ''backend_engineer'' [] [''src/main.py'']]"
    by simp
  from unresolvable_never_dispatched [OF a b c d] show ?thesis .
qed

section \<open>C6: no timeout on a worker's call\<close>

text \<open>
  Claim C6 says that each call is awaited under a timeout and that a package whose call
  times out is marked as failed with a reason. The source awaits
  \<open>agent.execute_step\<close> directly: when the call for \<open>F\<close> never returns, the gather of
  its batch is awaited forever, at every bound on the iterations, although \<open>G\<close> of the
  same batch has completed; \<open>F\<close> is marked nowhere.
\<close>

theorem no_timeout_counterexample:
  "\<forall>n. execute_work_packages (Suc n) (only_fails ''F'' Never_returns) team_F_G =
     ([([], work_packages team_F_G)],
      Some (Awaiting (team_F_G\<lparr>state := EXECUTING, completed_packages := [''G'']\<rparr>)))"
  by (simp add: run_F_hangs) (simp add: team_F_G_def new_team_def)

text \<open>
  Claim C6 as amended. The calls of a batch do not affect each other: after the gather an
  id is in \<open>completed_packages\<close> exactly when it was there before or a package of the
  batch with that id was routed to an agent and its own call returned; the gather
  finishes exactly when no call that was made never returns; and nothing but
  \<open>completed_packages\<close> changes, so a call that raises leaves neither a mark nor a
  reason in the team.
\<close>

theorem gather_isolation:
  "(x \<in> set (completed_packages (snd (gather w i t b))) \<longleftrightarrow>
      x \<in> set (completed_packages t) \<or>
      (\<exists>k<length b. package_id (b ! k) = x \<and>
         find_agent_for_package (agents t) (b ! k) \<noteq> None \<and> w (i + k) (b ! k) = Returns)) \<and>
   (fst (gather w i t b) \<longleftrightarrow>
      (\<forall>k<length b. find_agent_for_package (agents t) (b ! k) = None \<or>
         w (i + k) (b ! k) \<noteq> Never_returns)) \<and>
   snd (gather w i t b) = t\<lparr>completed_packages := completed_packages (snd (gather w i t b))\<rparr>"
  using succeeded_iff [of x "agents t" w i b]
  by (simp add: gather_eq all_finish_iff)

theorem gather_isolation_witness:
  "''G'' \<in> set (completed_packages
      (snd (gather (only_fails ''F'' Raises 0) 0 team_F_G (work_packages team_F_G)))) \<and>
   ''F'' \<notin> set (completed_packages
      (snd (gather (only_fails ''F'' Raises 0) 0 team_F_G (work_packages team_F_G)))) \<and>
   fst (gather (only_fails ''F'' Raises 0) 0 team_F_G (work_packages team_F_G)) \<and>
   snd (gather (only_fails ''F'' Raises 0) 0 team_F_G (work_packages team_F_G)) =
     team_F_G\<lparr>completed_packages := [''G'']\<rparr>"
  using gather_isolation [of "''G''" "only_fails ''F'' Raises 0" 0 team_F_G "work_packages team_F_G"]
  by (simp add: gather_F_raises)

section \<open>C7: the fallback rule\<close>

text \<open>
  Claim C7. When the mapped agent tag of a package is not a key of the registry (an empty
  tag included), \<open>_find_agent_for_package\<close> looks at the types of the files to create
  and takes the first rule that matches, in this order: python or api gives the backend
  specialist, html, css or javascript the frontend specialist, ml or data the ML
  specialist, docker or deploy the devops specialist, test the QA specialist; when none
  matches the result is the entry of \<open>fullstack_specialist\<close>. With the registry built
  by \<open>initialize_team\<close>, a package with an unknown tag and no files is routed to the
  fullstack specialist: routing does not fail.
\<close>

theorem fallback_routing_precedence:
  assumes "mapped_name (get_agent p) \<notin> dom ags"
  shows "(hinted [''python'', ''api''] p \<longrightarrow>
            find_agent_for_package ags p = ags ''backend_specialist'') \<and>
         (\<not> hinted [''python'', ''api''] p \<and> hinted [''html'', ''css'', ''javascript''] p \<longrightarrow>
            find_agent_for_package ags p = ags ''frontend_specialist'') \<and>
         (\<not> hinted [''python'', ''api''] p \<and> \<not> hinted [''html'', ''css'', ''javascript''] p \<and>
          hinted [''ml'', ''data''] p \<longrightarrow>
            find_agent_for_package ags p = ags ''ml_specialist'') \<and>
         (\<not> hinted [''python'', ''api''] p \<and> \<not> hinted [''html'', ''css'', ''javascript''] p \<and>
          \<not> hinted [''ml'', ''data''] p \<and> hinted [''docker'', ''deploy''] p \<longrightarrow>
            find_agent_for_package ags p = ags ''devops_specialist'') \<and>
         (\<not> hinted [''python'', ''api''] p \<and> \<not> hinted [''html'', ''css'', ''javascript''] p \<and>
          \<not> hinted [''ml'', ''data''] p \<and> \<not> hinted [''docker'', ''deploy''] p \<and>
          hinted [''test''] p \<longrightarrow>
            find_agent_for_package ags p = ags ''qa_specialist'') \<and>
         (\<not> hinted [''python'', ''api''] p \<and> \<not> hinted [''html'', ''css'', ''javascript''] p \<and>
          \<not> hinted [''ml'', ''data''] p \<and> \<not> hinted [''docker'', ''deploy''] p \<and>
          \<not> hinted [''test''] p \<longrightarrow>
            find_agent_for_package ags p = ags ''fullstack_specialist'') \<and>
         (ags = initialize_team_agents \<and> get_files_to_create p = [] \<longrightarrow>
            find_agent_for_package ags p =
              Some (SmartCodingAgent ''fullstack_specialist'' ''Fullstack Specialist''))"
proof -
  note chain = fallback_chain [OF assms]
  have full: "initialize_team_agents ''fullstack_specialist'' =
      Some (SmartCodingAgent ''fullstack_specialist'' ''Fullstack Specialist'')"
    by (simp add: initialize_team_agents_def)
  have c1: "hinted [''python'', ''api''] p \<longrightarrow>
      find_agent_for_package ags p = ags ''backend_specialist''"
    by (simp add: chain)
  have c2: "\<not> hinted [''python'', ''api''] p \<and> hinted [''html'', ''css'', ''javascript''] p \<longrightarrow>
      find_agent_for_package ags p = ags ''frontend_specialist''"
    by (simp add: chain)
  have c3: "\<not> hinted [''python'', ''api''] p \<and> \<not> hinted [''html'', ''css'', ''javascript''] p \<and>
      hinted [''ml'', ''data''] p \<longrightarrow> find_agent_for_package ags p = ags ''ml_specialist''"
    by (simp add: chain)
  have c4: "\<not> hinted [''python'', ''api''] p \<and> \<not> hinted [''html'', ''css'', ''javascript''] p \<and>
      \<not> hinted [''ml'', ''data''] p \<and> hinted [''docker'', ''deploy''] p \<longrightarrow>
      find_agent_for_package ags p = ags ''devops_specialist''"
    by (simp add: chain)
  have c5: "\<not> hinted [''python'', ''api''] p \<and> \<not> hinted [''html'', ''css'', ''javascript''] p \<and>
      \<not> hinted [''ml'', ''data''] p \<and> \<not> hinted [''docker'', ''deploy''] p \<and>
      hinted [''test''] p \<longrightarrow> find_agent_for_package ags p = ags ''qa_specialist''"
    by (simp add: chain)
  have c6: "\<not> hinted [''python'', ''api''] p \<and> \<not> hinted [''html'', ''css'', ''javascript''] p \<and>
      \<not> hinted [''ml'', ''data''] p \<and> \<not> hinted [''docker'', ''deploy''] p \<and>
      \<not> hinted [''test''] p \<longrightarrow> find_agent_for_package ags p = ags ''fullstack_specialist''"
    by (simp add: chain)
  have c7: "ags = initialize_team_agents \<and> get_files_to_create p = [] \<longrightarrow>
      find_agent_for_package ags p =
        Some (SmartCodingAgent ''fullstack_specialist'' ''Fullstack Specialist'')"
  proof (intro impI, elim conjE)
    assume a: "ags = initialize_team_agents" and f: "get_files_to_create p = []"
    from f have "find_agent_for_package ags p = ags ''fullstack_specialist''"
      by (simp add: chain not_hinted_no_files)
    with a full show "find_agent_for_package ags p =
        Some (SmartCodingAgent ''fullstack_specialist'' ''Fullstack Specialist'')"
      by simp
  qed
  from c1 c2 c3 c4 c5 c6 c7 show ?thesis
    by (intro conjI)
qed

theorem fallback_routing_precedence_witness:
  "find_agent_for_package initialize_team_agents (package ''E'' ''unknown_tag'' [] [])
     = Some (SmartCodingAgent ''fullstack_specialist'' ''Fullstack Specialist'') \<and>
   find_agent_for_package initialize_team_agents
     (package ''W'' [] [] [''static/style.css'', ''src/app.py''])
     = Some (SmartCodingAgent ''backend_specialist'' ''Backend Specialist'')"
proof -
  let ?e = "package ''E'' ''unknown_tag'' [] []"
  let ?w = "package ''W'' [] [] [''static/style.css'', ''src/app.py'']"
  have e: "mapped_name (get_agent ?e) \<notin> dom initialize_team_agents"
    by (simp add: route_defs)
  have w: "mapped_name (get_agent ?w) \<notin> dom initialize_team_agents"
    by (simp add: route_defs)
  have "get_file_type ''src/app.py'' = ''python''"
    by (simp add: get_file_type_def any_in_def endswith_def lower_def lower_char_def
        sublist_code suffix_to_prefix)
  then have py: "hinted [''python'', ''api''] ?w"
    by (simp add: hinted_def file_types_def package_def get_files_to_create_def get_file_path_def)
  have nofiles: "get_files_to_create ?e = []"
    by (simp add: package_def get_files_to_create_def)
  from fallback_routing_precedence [OF e] fallback_routing_precedence [OF w] py nofiles
  show ?thesis
    by (simp add: initialize_team_agents_def)
qed

section \<open>C8: the primary rule\<close>

text \<open>
  Claim C8 says that the primary rule matches the agent tag up to letter case. The source
  looks the tag up in two dictionaries, which compares strings exactly: the tag
  \<open>Backend_Specialist\<close> equals the registered \<open>backend_specialist\<close> up to case, and its
  package falls through to the file types and goes to the frontend specialist.
\<close>

theorem primary_rule_case_counterexample:
  "lower ''Backend_Specialist'' = lower ''backend_specialist'' \<and>
   find_agent_for_package initialize_team_agents
     (package ''P'' ''backend_specialist'' [] [''index.html''])
     = Some (SmartCodingAgent ''backend_specialist'' ''Backend Specialist'') \<and>
   find_agent_for_package initialize_team_agents
     (package ''P'' ''Backend_Specialist'' [] [''index.html''])
     = Some (SmartCodingAgent ''frontend_specialist'' ''Frontend Specialist'')"
proof -
  have l: "lower ''Backend_Specialist'' = lower ''backend_specialist''"
    by (simp add: lower_def lower_char_def)
  have t: "get_file_type ''index.html'' = ''html''"
    by (simp add: get_file_type_def any_in_def endswith_def lower_def lower_char_def
        sublist_code suffix_to_prefix)
  have a: "find_agent_for_package initialize_team_agents
     (package ''P'' ''backend_specialist'' [] [''index.html''])
     = Some (SmartCodingAgent ''backend_specialist'' ''Backend Specialist'')"
    by (simp add: route_defs)
  have b: "find_agent_for_package initialize_team_agents
     (package ''P'' ''Backend_Specialist'' [] [''index.html''])
     = Some (SmartCodingAgent ''frontend_specialist'' ''Frontend Specialist'')"
    using t by (simp add: route_defs)
  from l a b show ?thesis
    by (intro conjI)
qed

text \<open>
  Claim C8 as amended. When the mapped tag is a key of the registry, the package goes to
  the agent registered under the mapped tag, whatever its files to create are; with the
  registry of \<open>initialize_team\<close> this happens only for the seven registered names and
  the six engineer aliases, written exactly so.
\<close>

theorem primary_rule_exact:
  assumes "mapped_name (get_agent p) \<in> dom ags"
  shows "find_agent_for_package ags p = ags (mapped_name (get_agent p)) \<and>
         find_agent_for_package ags p \<noteq> None \<and>
         find_agent_for_package ags (p\<lparr>files_to_create := fs\<rparr>) = find_agent_for_package ags p \<and>
         (ags = initialize_team_agents \<longrightarrow>
            get_agent p \<in> set [''backend_specialist'', ''frontend_specialist'',
              ''fullstack_specialist'', ''ml_specialist'', ''devops_specialist'',
              ''qa_specialist'', ''requirements_analyst'', ''backend_engineer'',
              ''frontend_engineer'', ''fullstack_engineer'', ''ml_engineer'',
              ''devops_engineer'', ''qa_engineer''])"
proof -
  from assms have a: "find_agent_for_package ags p = ags (mapped_name (get_agent p))"
    by (simp add: find_agent_for_package_def Let_def)
  from assms a have b: "find_agent_for_package ags p \<noteq> None"
    by (auto simp: dom_def)
  have "get_agent (p\<lparr>files_to_create := fs\<rparr>) = get_agent p"
    by (simp add: get_agent_def)
  with assms a have c:
    "find_agent_for_package ags (p\<lparr>files_to_create := fs\<rparr>) = find_agent_for_package ags p"
    by (simp add: find_agent_for_package_def Let_def)
  from assms have d: "ags = initialize_team_agents \<longrightarrow>
      get_agent p \<in> set [''backend_specialist'', ''frontend_specialist'',
        ''fullstack_specialist'', ''ml_specialist'', ''devops_specialist'',
        ''qa_specialist'', ''requirements_analyst'', ''backend_engineer'',
        ''frontend_engineer'', ''fullstack_engineer'', ''ml_engineer'',
        ''devops_engineer'', ''qa_engineer'']"
    using primary_names [of "get_agent p"] by blast
  from a b c d show ?thesis
    by (intro conjI)
qed

theorem primary_rule_exact_witness:
  "find_agent_for_package initialize_team_agents
     (package ''P'' ''backend_engineer'' [] [''index.html''])
     = Some (SmartCodingAgent ''backend_specialist'' ''Backend Specialist'')"
proof -
  let ?p = "package ''P'' ''backend_engineer'' [] [''index.html'']"
  have "mapped_name (get_agent ?p) \<in> dom initialize_team_agents"
    by (simp add: route_defs)
  from primary_rule_exact [OF this] show ?thesis
    by (simp add: route_defs)
qed

section \<open>C9: a dependency on an id that no package has\<close>

text \<open>
  Claim C9 says that with such a package the run exits through the branch of the empty
  ready set. Whether it exits depends on the other packages: when the call for \<open>A\<close>
  raises each time, \<open>A\<close> is dispatched round after round and the loop is still running
  after any number of iterations, so that branch is never reached.
\<close>

theorem missing_dependency_no_exit_counterexample:
  "''X'' \<in> set (get_dependencies (package ''P'' ''backend_engineer'' [''X''] [''src/p.py''])) \<and>
   ''X'' \<notin> package_id ` set (work_packages team_missing_dep) \<and>
   fst (execute_work_packages 3 (always Raises) team_missing_dep) =
     [([], [package ''A'' ''backend_engineer'' [] [''src/main.py'']]),
      ([], [package ''A'' ''backend_engineer'' [] [''src/main.py'']]),
      ([], [package ''A'' ''backend_engineer'' [] [''src/main.py'']])] \<and>
   (\<forall>n. snd (execute_work_packages n (always Raises) team_missing_dep) = None)"
proof -
  let ?t = "team_missing_dep\<lparr>state := EXECUTING\<rparr>"
  have "length (completed_packages ?t) < length (work_packages ?t)"
    by (simp add: team_missing_dep_def new_team_def)
  moreover have "get_available_packages ?t \<noteq> []"
    by (simp add: team_missing_dep_def new_team_def get_available_packages_def package_def
        get_dependencies_def)
  moreover have "\<forall>r i p. always Raises r i p = Raises"
    by (simp add: always_def)
  ultimately have "snd (execute_loop n (always Raises) 0 ?t) = None" for n
    by (rule loop_never_exits)
  then have never: "\<forall>n. snd (execute_work_packages n (always Raises) team_missing_dep) = None"
    by (simp add: execute_work_packages_def)
  have "''X'' \<in> set (get_dependencies (package ''P'' ''backend_engineer'' [''X''] [''src/p.py'']))"
    by (simp add: package_def get_dependencies_def)
  moreover have "''X'' \<notin> package_id ` set (work_packages team_missing_dep)"
    by (simp add: team_missing_dep_def new_team_def package_def)
  ultimately show ?thesis
    using never run_missing_dep_raises by (intro conjI)
qed

text \<open>
  Claim C9 as amended. Let a package \<open>p\<close> of a run that starts with nothing completed
  depend on an id \<open>d\<close> that no package has. The functions of the scheduler have no
  error to return on the way, as the source has nothing that raises there; \<open>p\<close> is not
  returned by \<open>_get_available_packages\<close> and is in no batch; the \<open>while\<close> condition
  never becomes false, so the loop can only leave through the branch of the empty ready
  set; and it does leave there, within as many iterations as there are packages, when
  the batch size is at least 1, every package is routed and every call returns.
\<close>

theorem unknown_dependency_never_dispatched:
  assumes "p \<in> set (work_packages t)" and "d \<in> set (get_dependencies p)"
    and "d \<notin> package_id ` set (work_packages t)" and "completed_packages t = []"
  shows "(\<forall>c b. (c, b) \<in> set (fst (execute_work_packages n w t)) \<longrightarrow> p \<notin> set b) \<and>
         p \<notin> set (get_available_packages t) \<and>
         snd (execute_work_packages n w t) \<noteq> Some (Exited All_completed t') \<and>
         (1 \<le> batch_processing_size t \<and> (\<forall>r i q. w r i q = Returns) \<and>
          (\<forall>q\<in>set (work_packages t). find_agent_for_package (agents t) q \<noteq> None) \<longrightarrow>
            (\<exists>bl t''. snd (execute_work_packages (length (work_packages t)) w t) =
               Some (Exited (No_available bl) t'')))"
proof -
  let ?t = "t\<lparr>state := EXECUTING\<rparr>"
  have closed: "\<forall>q\<in>set (work_packages ?t). package_id q \<in> {d} \<longrightarrow>
      (\<exists>x\<in>set (get_dependencies q). x \<in> {d})"
    using assms(3) by auto
  have start: "set (completed_packages ?t) \<inter> {d} = {}"
    using assms(4) by simp
  have a: "p \<notin> set b" if "(c, b) \<in> set (fst (execute_work_packages n w t))" for c b
  proof
    assume "p \<in> set b"
    from that have in_log: "(c, b) \<in> set (fst (execute_loop n w 0 ?t))"
      by (simp add: execute_work_packages_def)
    from closed_set_log [OF closed start in_log] have "d \<notin> set c"
      by simp
    moreover from log_entry_selected [OF in_log] obtain u where
      "c = completed_packages u" "b = select_batch u"
      by blast
    with \<open>p \<in> set b\<close> have "set (get_dependencies p) \<subseteq> set c"
      using select_batch_set available_dependencies by blast
    ultimately show False using assms(2) by blast
  qed
  have b: "p \<notin> set (get_available_packages t)"
    using assms(2,4) available_dependencies [of p t] by auto
  have count: "length (completed_packages ?t) \<le> length (counted d ?t)"
    using assms(4) by simp
  have never: "snd (execute_loop m w 0 ?t) \<noteq> Some (Exited All_completed u)" for m u
    using count assms(4,3,1,2) by (intro loop_not_all_completed [where p = p and d = d]) simp_all
  then have c: "snd (execute_work_packages n w t) \<noteq> Some (Exited All_completed t')"
    by (simp add: execute_work_packages_def)
  have d: "\<exists>bl t''. snd (execute_work_packages (length (work_packages t)) w t) =
      Some (Exited (No_available bl) t'')"
    if "1 \<le> batch_processing_size t \<and> (\<forall>r i q. w r i q = Returns) \<and>
        (\<forall>q\<in>set (work_packages t). find_agent_for_package (agents t) q \<noteq> None)"
  proof -
    have "\<exists>e u. snd (execute_loop (length (work_packages t)) w 0 ?t) = Some (Exited e u)"
      using that by (intro loop_terminates) simp_all
    then obtain e u where eu: "snd (execute_loop (length (work_packages t)) w 0 ?t) = Some (Exited e u)"
      by blast
    with never [of "length (work_packages t)" u] obtain bl where "e = No_available bl"
      by (cases e) auto
    with eu show ?thesis
      by (auto simp: execute_work_packages_def)
  qed
  from a b c d show ?thesis
    by blast
qed

theorem unknown_dependency_never_dispatched_witness:
  "package ''P'' ''backend_engineer'' [''X''] [''src/p.py'']
     \<notin> set [package ''A'' ''backend_engineer'' [] [''src/main.py'']] \<and>
   package ''P'' ''backend_engineer'' [''X''] [''src/p.py'']
     \<notin> set (get_available_packages team_missing_dep) \<and>
   snd (execute_work_packages 5 (always Returns) team_missing_dep)
     \<noteq> Some (Exited All_completed team_missing_dep) \<and>
   (\<exists>bl t''. snd (execute_work_packages 2 (always Returns) team_missing_dep) =
      Some (Exited (No_available bl) t''))"
proof -
  let ?p = "package ''P'' ''backend_engineer'' [''X''] [''src/p.py'']"
  have a: "?p \<in> set (work_packages team_missing_dep)"
    by (simp add: team_missing_dep_def new_team_def)
  have b: "''X'' \<in> set (get_dependencies ?p)"
    by (simp add: package_def get_dependencies_def)
  have c: "''X'' \<notin> package_id ` set (work_packages team_missing_dep)"
    by (simp add: team_missing_dep_def new_team_def package_def)
  have d: "completed_packages team_missing_dep = []"
    by (simp add: team_missing_dep_def new_team_def)
  have e: "([], [package ''A'' ''backend_engineer'' [] [''src/main.py'']])
      \<in> set (fst (execute_work_packages 5 (always Returns) team_missing_dep))"
    by (simp add: run_missing_dep)
  have f: "1 \<le> batch_processing_size team_missing_dep \<and>
      (\<forall>r i q. always Returns r i q = Returns) \<and>
      (\<forall>q\<in>set (work_packages team_missing_dep).
         find_agent_for_package (agents team_missing_dep) q \<noteq> None)"
    by (simp add: team_missing_dep_def new_team_def always_def route_defs)
  have g: "length (work_packages team_missing_dep) = 2"
    by (simp add: team_missing_dep_def new_team_def)
  note th = unknown_dependency_never_dispatched
    [OF a b c d, of 5 "always Returns" team_missing_dep]
  from th e have c1: "?p \<notin> set [package ''A'' ''backend_engineer'' [] [''src/main.py'']]"
    by blast
  from th have c2: "?p \<notin> set (get_available_packages team_missing_dep)"
    by blast
  from th have c3: "snd (execute_work_packages 5 (always Returns) team_missing_dep)
      \<noteq> Some (Exited All_completed team_missing_dep)"
    by blast
  from th f have "\<exists>bl t''. snd (execute_work_packages (length (work_packages team_missing_dep))
      (always Returns) team_missing_dep) = Some (Exited (No_available bl) t'')"
    by blast
  with g have c4: "\<exists>bl t''. snd (execute_work_packages 2 (always Returns) team_missing_dep) =
      Some (Exited (No_available bl) t'')"
    by simp
  from c1 c2 c3 c4 show ?thesis
    by (intro conjI)
qed

section \<open>C10: test files go to the QA specialist\<close>

text \<open>
  Claim C10. Every path whose lower-cased form contains \<open>test\<close> or \<open>spec\<close> has the
  file type \<open>test\<close>, whatever its extension; so a package whose mapped tag is not
  registered and whose files are all of this kind (and there is at least one) is routed
  to the entry of \<open>qa_specialist\<close>, not to the backend specialist.
\<close>

theorem test_classification_priority:
  assumes tag: "mapped_name (get_agent p) \<notin> dom ags"
    and files: "get_files_to_create p \<noteq> []"
    and tests: "\<forall>f\<in>set (get_files_to_create p).
        sublist ''test'' (lower (get_file_path f)) \<or> sublist ''spec'' (lower (get_file_path f))"
  shows "(\<forall>path. sublist ''test'' (lower path) \<or> sublist ''spec'' (lower path)
            \<longrightarrow> get_file_type path = ''test'') \<and>
         find_agent_for_package ags p = ags ''qa_specialist''"
proof -
  from tests have all: "\<forall>ft\<in>set (file_types p). ft = ''test''"
    by (auto simp: file_types_def get_file_type_test)
  from files have some: "\<exists>ft. ft \<in> set (file_types p)"
    by (cases "get_files_to_create p") (auto simp: file_types_def)
  from all have no:
    "\<not> any_type [''python'', ''api''] (file_types p)"
    "\<not> any_type [''html'', ''css'', ''javascript''] (file_types p)"
    "\<not> any_type [''ml'', ''data''] (file_types p)"
    "\<not> any_type [''docker'', ''deploy''] (file_types p)"
    by (auto simp: any_type_iff)
  from all some have yes: "any_type [''test''] (file_types p)"
    by (auto simp: any_type_iff)
  from tag no yes have "find_agent_for_package ags p = ags ''qa_specialist''"
    by (simp add: find_agent_for_package_def Let_def)
  then show ?thesis
    by (simp add: get_file_type_test)
qed

theorem test_classification_priority_witness:
  "get_file_type ''tests/Test_main.py'' = ''test'' \<and>
   find_agent_for_package initialize_team_agents
     (package ''T'' ''unknown_tag'' [] [''tests/Test_main.py''])
     = Some (SmartCodingAgent ''qa_specialist'' ''QA Specialist'')"
proof -
  let ?p = "package ''T'' ''unknown_tag'' [] [''tests/Test_main.py'']"
  have tag: "mapped_name (get_agent ?p) \<notin> dom initialize_team_agents"
    by (simp add: route_defs)
  have files: "get_files_to_create ?p \<noteq> []"
    by (simp add: package_def get_files_to_create_def)
  have sub: "sublist ''test'' (lower ''tests/Test_main.py'')"
    by (simp add: lower_test_main)
  then have tests: "\<forall>f\<in>set (get_files_to_create ?p).
      sublist ''test'' (lower (get_file_path f)) \<or> sublist ''spec'' (lower (get_file_path f))"
    by (simp add: package_def get_files_to_create_def get_file_path_def)
  from test_classification_priority [OF tag files tests] sub show ?thesis
    by (simp add: initialize_team_agents_def)
qed

end
